theory Spec2Isabelle
  imports Main "HOL-Library.Word"
begin

unbundle bit_operations_syntax

section \<open>Fast GPIO pin access (GpioFast.h)\<close>

text \<open>
  The header generates, for a pin name \<open>x\<close>, the functions \<open>x_on\<close>, \<open>x_off\<close>,
  \<open>x_set\<close>, \<open>x_get\<close> and \<open>x_pulse\<close> (macro \<open>GPIO_output_functions2\<close>) or only
  \<open>x_get\<close> (macro \<open>GPIO_input_functions2\<close>). Each one stores to the register
  \<open>BSRR\<close> or loads the register \<open>IDR\<close> of the port \<open>x_GPIO_Port\<close>, with the mask
  \<open>x_Pin\<close>. Both symbols come from the board configuration and are parameters here:
  the mask as the 32-bit value the code converts it to, the port as the state the
  functions transform.
\<close>

type_synonym u32 = "32 word"

subsection \<open>The port\<close>

text \<open>
  The registers of a port are volatile, so every access is an event. The log \<open>bus\<close>
  keeps the accesses in program order; \<open>wave\<close> keeps the value of the output latch
  after each store, which is what a logic analyser on the port records.
\<close>

datatype gpio_reg = Reg_IDR | Reg_ODR | Reg_BSRR

datatype access = Load gpio_reg | Store gpio_reg u32

record GPIO_TypeDef =
  IDR :: u32
  ODR :: u32
  loopback :: bool
  bus :: "access list"
  wave :: "u32 list"

text \<open>
  Modelled from the spec: the pin binding, which the board configuration supplies.
  A pin's mask is a single set bit within the 16-bit width of the port.
\<close>

definition valid_Pin :: "u32 \<Rightarrow> bool" where
  "valid_Pin pin = (\<exists>k \<in> {0..<16}. pin = push_bit k 1)"

text \<open>
  Modelled from the spec: the hardware behind the set/reset register. A store to
  \<open>BSRR\<close> sets the output bits named in the lower half of the stored value and clears
  those named in the upper half; no other output bit changes. Where the port is wired
  loop-back, the bits the store names are reflected into the input register.
\<close>

definition BSRR_store :: "u32 \<Rightarrow> GPIO_TypeDef \<Rightarrow> GPIO_TypeDef" where
  "BSRR_store v g =
     (let bs = v AND 0xFFFF;
          br = drop_bit 16 v;
          odr = (ODR g AND NOT br) OR bs;
          named = bs OR br
      in g\<lparr>IDR := (if loopback g then (IDR g AND NOT named) OR (odr AND named) else IDR g),
            ODR := odr,
            bus := bus g @ [Store Reg_BSRR v],
            wave := wave g @ [odr]\<rparr>)"

text \<open>
  Modelled from the spec: a load of the input register returns its bits and changes no
  register.
\<close>

definition IDR_load :: "GPIO_TypeDef \<Rightarrow> u32 \<times> GPIO_TypeDef" where
  "IDR_load g = (IDR g, g\<lparr>bus := bus g @ [Load Reg_IDR]\<rparr>)"

subsection \<open>The generated functions\<close>

text \<open>
  \<^verbatim>\<open>void x_on() { x_GPIO_Port->BSRR = (uint32_t)( x_Pin ); }\<close>
\<close>

definition x_on :: "u32 \<Rightarrow> GPIO_TypeDef \<Rightarrow> GPIO_TypeDef" where
  "x_on pin g = BSRR_store pin g"

text \<open>
  \<^verbatim>\<open>void x_off() { x_GPIO_Port->BSRR = (uint32_t)( x_Pin << 16); }\<close>

  The shift is taken at 32 bits, as GCC (the compiler the header's attributes are
  written for) computes it for every mask of the port's width.
\<close>

definition x_off :: "u32 \<Rightarrow> GPIO_TypeDef \<Rightarrow> GPIO_TypeDef" where
  "x_off pin g = BSRR_store (push_bit 16 pin) g"

text \<open>
  \<^verbatim>\<open>void x_set(uint32_t arg) { if (arg) x_on(); else x_off(); }\<close>
\<close>

definition x_set :: "u32 \<Rightarrow> u32 \<Rightarrow> GPIO_TypeDef \<Rightarrow> GPIO_TypeDef" where
  "x_set pin arg g = (if arg \<noteq> 0 then x_on pin g else x_off pin g)"

text \<open>
  \<^verbatim>\<open>uint32_t x_get() { return 0 != (x_GPIO_Port->IDR & x_Pin); }\<close>
\<close>

definition x_get :: "u32 \<Rightarrow> GPIO_TypeDef \<Rightarrow> u32 \<times> GPIO_TypeDef" where
  "x_get pin g =
     (case IDR_load g of (idr, g') \<Rightarrow> (if 0 \<noteq> (idr AND pin) then 1 else 0, g'))"

text \<open>
  \<^verbatim>\<open>void x_pulse(unsigned qty) { for (; qty; qty--) { x_on(); x_off(); } }\<close>

  The counter is a 32-bit unsigned value. The loop is a partial function, so that its
  termination is a theorem and not an assumption of the model.
\<close>

partial_function (option) x_pulse :: "u32 \<Rightarrow> u32 \<Rightarrow> GPIO_TypeDef \<Rightarrow> GPIO_TypeDef option" where
  "x_pulse pin qty g =
     (if qty \<noteq> 0 then x_pulse pin (qty - 1) (x_off pin (x_on pin g)) else Some g)"

text \<open>
  The input-only variant of the generator, \<open>GPIO_input_functions2\<close>, has the one
  function
  \<^verbatim>\<open>uint32_t x_get() { return 0 != (x_GPIO_Port->IDR & x_Pin); }\<close>
\<close>

definition x_get_input :: "u32 \<Rightarrow> GPIO_TypeDef \<Rightarrow> u32 \<times> GPIO_TypeDef" where
  "x_get_input pin g =
     (case IDR_load g of (idr, g') \<Rightarrow> (if 0 \<noteq> (idr AND pin) then 1 else 0, g'))"

subsection \<open>Observations\<close>

text \<open>The registers of the port, without the logs.\<close>

definition regs :: "GPIO_TypeDef \<Rightarrow> u32 \<times> u32" where
  "regs g = (IDR g, ODR g)"

text \<open>Starting a capture: the log of the output latch holds its present value only.\<close>

definition arm :: "GPIO_TypeDef \<Rightarrow> GPIO_TypeDef" where
  "arm g = g\<lparr>wave := [ODR g]\<rparr>"

text \<open>
  The edges of a pin in a capture: \<open>edges_to h pin ws\<close> counts the neighbours in
  \<open>ws\<close> where the pin's level changes to \<open>h\<close> (\<open>True\<close> is high).
\<close>

fun edges_to :: "bool \<Rightarrow> u32 \<Rightarrow> u32 list \<Rightarrow> nat" where
  "edges_to h pin (a # b # ws) =
     (if (a AND pin \<noteq> 0) \<noteq> h \<and> (b AND pin \<noteq> 0) = h then 1 else 0) + edges_to h pin (b # ws)"
| "edges_to h pin ws = 0"

text \<open>The loop body of \<open>x_pulse\<close>, run \<open>n\<close> times.\<close>

fun pulses :: "nat \<Rightarrow> u32 \<Rightarrow> GPIO_TypeDef \<Rightarrow> GPIO_TypeDef" where
  "pulses 0 pin g = g"
| "pulses (Suc n) pin g = pulses n pin (x_off pin (x_on pin g))"

text \<open>Whether bit \<open>i\<close> of the input and of the output register is the same in two states.\<close>

definition bit_kept :: "nat \<Rightarrow> GPIO_TypeDef \<Rightarrow> GPIO_TypeDef \<Rightarrow> bool" where
  "bit_kept i g g' = (bit (IDR g') i = bit (IDR g) i \<and> bit (ODR g') i = bit (ODR g) i)"

text \<open>A port after reset, not wired loop-back, with empty logs: the state of the examples.\<close>

definition port_reset :: GPIO_TypeDef where
  "port_reset = \<lparr>IDR = 0, ODR = 0, loopback = False, bus = [], wave = []\<rparr>"

section \<open>Properties\<close>

subsection \<open>Masks\<close>

lemma low_half_mask: "(0xFFFF :: u32) = mask 16"
  by (simp add: mask_eq_exp_minus_1)

lemma valid_Pin_bit: "valid_Pin pin \<Longrightarrow> \<exists>k<16. \<forall>n. bit pin n \<longleftrightarrow> n = k"
  unfolding valid_Pin_def
  by (auto simp add: bit_simps)

lemma valid_Pin_low: "valid_Pin pin \<Longrightarrow> pin AND 0xFFFF = pin"
  unfolding low_half_mask
  by (drule valid_Pin_bit, rule bit_word_eqI) (auto simp add: bit_simps)

lemma valid_Pin_high: "valid_Pin pin \<Longrightarrow> drop_bit 16 pin = 0"
  by (drule valid_Pin_bit, rule bit_word_eqI) (auto simp add: bit_simps)

lemma valid_Pin_nonzero: "valid_Pin pin \<Longrightarrow> pin \<noteq> 0"
  by (drule valid_Pin_bit) auto

lemma push16_low: "push_bit 16 (pin :: u32) AND 0xFFFF = 0"
  unfolding low_half_mask
  by (rule bit_word_eqI) (auto simp add: bit_simps)

lemma push16_high: "drop_bit 16 (push_bit 16 pin) = pin AND (0xFFFF :: u32)"
  unfolding low_half_mask
  by (rule bit_word_eqI) (auto simp add: bit_simps)

lemma valid_Pin_shift: "valid_Pin pin \<Longrightarrow> drop_bit 16 (push_bit 16 pin) = pin"
  by (simp add: push16_high valid_Pin_low)

lemma and_not_or: "(a AND NOT p) OR p = a OR (p :: u32)"
  by (rule bit_word_eqI) (auto simp add: bit_simps)

lemma and_not_and: "(a AND NOT p) AND p = (0 :: u32)"
  by (rule bit_word_eqI) (auto simp add: bit_simps)

lemma and_not_not: "(a AND NOT p) AND NOT p = a AND NOT (p :: u32)"
  by (rule bit_word_eqI) (auto simp add: bit_simps)

lemma or_and_not: "(a OR p) AND NOT p = a AND NOT (p :: u32)"
  by (rule bit_word_eqI) (auto simp add: bit_simps)

lemma or_and_self: "(a OR p) AND p = (p :: u32)"
  by (rule bit_word_eqI) (auto simp add: bit_simps)

subsection \<open>What each function does to the port\<close>

lemma x_on_eq:
  "valid_Pin pin \<Longrightarrow>
   x_on pin g =
     g\<lparr>IDR := (if loopback g then IDR g OR pin else IDR g),
       ODR := ODR g OR pin,
       bus := bus g @ [Store Reg_BSRR pin],
       wave := wave g @ [ODR g OR pin]\<rparr>"
  by (simp add: x_on_def BSRR_store_def Let_def valid_Pin_low valid_Pin_high and_not_or)

lemma x_off_eq:
  "valid_Pin pin \<Longrightarrow>
   x_off pin g =
     g\<lparr>IDR := (if loopback g then IDR g AND NOT pin else IDR g),
       ODR := ODR g AND NOT pin,
       bus := bus g @ [Store Reg_BSRR (push_bit 16 pin)],
       wave := wave g @ [ODR g AND NOT pin]\<rparr>"
  by (simp add: x_off_def BSRR_store_def Let_def push16_low valid_Pin_shift and_not_and)

lemma x_get_eq:
  "x_get pin g = (if IDR g AND pin \<noteq> 0 then 1 else 0, g\<lparr>bus := bus g @ [Load Reg_IDR]\<rparr>)"
  by (simp add: x_get_def IDR_load_def)

lemma x_get_input_eq:
  "x_get_input pin g = (if IDR g AND pin \<noteq> 0 then 1 else 0, g\<lparr>bus := bus g @ [Load Reg_IDR]\<rparr>)"
  by (simp add: x_get_input_def IDR_load_def)

subsection \<open>Switching a pin on and off\<close>

text \<open>
  C2: for every pin, \<open>x_on\<close> performs one access to the port, a store to the set/reset
  register of the pin's mask, which lies in the lower half of the register (the set
  position) and has nothing in the upper half; the output register is never loaded.
  After the store the pin's output bit is high.
\<close>

theorem x_on_sets_pin:
  "valid_Pin pin \<Longrightarrow>
   bus (x_on pin g) = bus g @ [Store Reg_BSRR pin]
   \<and> pin AND 0xFFFF = pin \<and> drop_bit 16 pin = 0
   \<and> ODR (x_on pin g) AND pin = pin"
  by (simp add: x_on_eq valid_Pin_low valid_Pin_high)

theorem x_on_sets_pin_witness:
  "valid_Pin 0x20
   \<and> bus (x_on 0x20 port_reset) = bus port_reset @ [Store Reg_BSRR 0x20]
   \<and> (0x20 :: u32) AND 0xFFFF = 0x20 \<and> drop_bit 16 (0x20 :: u32) = 0
   \<and> ODR (x_on 0x20 port_reset) AND 0x20 = 0x20"
proof -
  have v: "valid_Pin 0x20" by code_simp
  show ?thesis using v x_on_sets_pin [OF v, of port_reset] by simp
qed

text \<open>
  C3: for every pin, \<open>x_off\<close> performs one access to the port, a store to the same
  set/reset register of the pin's mask shifted left by 16: the value has nothing in the
  lower half and the pin's mask in the upper half (the reset position); the output
  register is never loaded. After the store the pin's output bit is low.
\<close>

theorem x_off_clears_pin:
  "valid_Pin pin \<Longrightarrow>
   bus (x_off pin g) = bus g @ [Store Reg_BSRR (push_bit 16 pin)]
   \<and> push_bit 16 pin AND 0xFFFF = 0 \<and> drop_bit 16 (push_bit 16 pin) = pin
   \<and> ODR (x_off pin g) AND pin = 0"
  by (simp add: x_off_eq push16_low valid_Pin_shift and_not_and)

theorem x_off_clears_pin_witness:
  "valid_Pin 0x8000
   \<and> bus (x_off 0x8000 (port_reset\<lparr>ODR := 0xFFFF\<rparr>)) = [Store Reg_BSRR 0x80000000]
   \<and> ODR (x_off 0x8000 (port_reset\<lparr>ODR := 0xFFFF\<rparr>)) = 0x7FFF
   \<and> ODR (x_off 0x8000 (port_reset\<lparr>ODR := 0xFFFF\<rparr>)) AND 0x8000 = 0"
proof -
  have v: "valid_Pin 0x8000" by code_simp
  have o: "ODR (x_off 0x8000 (port_reset\<lparr>ODR := 0xFFFF\<rparr>)) = 0x7FFF"
    by (simp add: x_off_def BSRR_store_def port_reset_def)
  show ?thesis using v o x_off_clears_pin [OF v, of "port_reset\<lparr>ODR := 0xFFFF\<rparr>"]
    by (simp add: port_reset_def)
qed

subsection \<open>The loop of \<open>x_pulse\<close>\<close>

lemma x_pulse_step:
  "qty \<noteq> 0 \<Longrightarrow> x_pulse pin qty g = x_pulse pin (qty - 1) (x_off pin (x_on pin g))"
  by (subst x_pulse.simps) simp

lemma x_pulse_zero: "x_pulse pin 0 g = Some g"
  by (subst x_pulse.simps) simp

lemma x_pulse_pulses: "x_pulse pin qty g = Some (pulses (unat qty) pin g)"
proof (induction "unat qty" arbitrary: qty g)
  case 0
  then have "qty = 0" by (simp add: unat_eq_0)
  then show ?case by (simp add: x_pulse_zero)
next
  case (Suc n)
  then have nz: "qty \<noteq> 0" by auto
  then have n: "n = unat (qty - 1)" using Suc.hyps(2) by (simp add: unat_minus_one)
  have "x_pulse pin qty g = x_pulse pin (qty - 1) (x_off pin (x_on pin g))"
    using nz by (rule x_pulse_step)
  also have "\<dots> = Some (pulses n pin (x_off pin (x_on pin g)))"
    using Suc.hyps(1) [OF n] n by simp
  also have "\<dots> = Some (pulses (unat qty) pin g)"
    using Suc.hyps(2) [symmetric] by simp
  finally show ?case .
qed

lemma bus_BSRR_store: "bus (BSRR_store v g) = bus g @ [Store Reg_BSRR v]"
  by (simp add: BSRR_store_def Let_def)

lemma bus_pulses:
  "bus (pulses n pin g) =
     bus g @ concat (replicate n [Store Reg_BSRR pin, Store Reg_BSRR (push_bit 16 pin)])"
  by (induction n arbitrary: g) (simp_all add: x_on_def x_off_def bus_BSRR_store)

lemma pulse_body_eq:
  "valid_Pin pin \<Longrightarrow>
   x_off pin (x_on pin g) =
     g\<lparr>IDR := (if loopback g then IDR g AND NOT pin else IDR g),
       ODR := ODR g AND NOT pin,
       bus := bus g @ [Store Reg_BSRR pin, Store Reg_BSRR (push_bit 16 pin)],
       wave := wave g @ [ODR g OR pin, ODR g AND NOT pin]\<rparr>"
  by (simp add: x_on_eq x_off_eq or_and_not)

lemma ODR_pulses:
  "valid_Pin pin \<Longrightarrow> ODR (pulses n pin g) = (if n = 0 then ODR g else ODR g AND NOT pin)"
  by (induction n arbitrary: g) (simp_all add: pulse_body_eq and_not_not)

lemma wave_pulses:
  "valid_Pin pin \<Longrightarrow>
   wave (pulses n pin g) = wave g @ concat (replicate n [ODR g OR pin, ODR g AND NOT pin])"
  by (induction n arbitrary: g) (simp_all add: pulse_body_eq and_not_not and_not_or)

lemma pulses_add: "pulses n pin (pulses m pin g) = pulses (m + n) pin g"
  by (induction m arbitrary: g) simp_all

lemma falling_pulses:
  "hi AND pin \<noteq> 0 \<Longrightarrow> lo AND pin = 0 \<Longrightarrow>
   edges_to False pin (a # concat (replicate n [hi, lo])) = n"
  by (induction n arbitrary: a) simp_all

lemma falling_armed_pulses:
  assumes "valid_Pin pin"
  shows "edges_to False pin (wave (pulses n pin (arm g))) = n"
proof -
  have hi: "(ODR g OR pin) AND pin \<noteq> 0"
    using assms by (simp add: or_and_self valid_Pin_nonzero)
  have lo: "(ODR g AND NOT pin) AND pin = 0"
    by (simp add: and_not_and)
  show ?thesis
    using falling_pulses [OF hi lo] assms by (simp add: wave_pulses arm_def)
qed

text \<open>
  C6: for every pin and every value \<open>n\<close> of the counter, \<open>x_pulse\<close> returns after
  exactly \<open>n\<close> repetitions of a set-store followed by a reset-store, starting with a
  set-store; the output latch goes high and then low in each repetition, so a capture
  started before the call shows exactly \<open>n\<close> high-to-low edges of the pin. With the
  counter 0 nothing is stored and the state is unchanged, and for a counter of at least
  1 the pin's output bit is low at the end.
\<close>

theorem x_pulse_repeats:
  "valid_Pin pin \<Longrightarrow>
   (\<exists>g'. x_pulse pin qty g = Some g'
      \<and> bus g' = bus g @ concat (replicate (unat qty)
                   [Store Reg_BSRR pin, Store Reg_BSRR (push_bit 16 pin)])
      \<and> wave g' = wave g @ concat (replicate (unat qty) [ODR g OR pin, ODR g AND NOT pin])
      \<and> (qty \<noteq> 0 \<longrightarrow> ODR g' AND pin = 0))
   \<and> (\<exists>g'. x_pulse pin qty (arm g) = Some g' \<and> edges_to False pin (wave g') = unat qty)
   \<and> x_pulse pin 0 g = Some g"
proof (intro conjI)
  assume v: "valid_Pin pin"
  show "\<exists>g'. x_pulse pin qty g = Some g'
      \<and> bus g' = bus g @ concat (replicate (unat qty)
                   [Store Reg_BSRR pin, Store Reg_BSRR (push_bit 16 pin)])
      \<and> wave g' = wave g @ concat (replicate (unat qty) [ODR g OR pin, ODR g AND NOT pin])
      \<and> (qty \<noteq> 0 \<longrightarrow> ODR g' AND pin = 0)"
    using v by (simp add: x_pulse_pulses bus_pulses wave_pulses ODR_pulses and_not_and unat_eq_0)
  show "\<exists>g'. x_pulse pin qty (arm g) = Some g' \<and> edges_to False pin (wave g') = unat qty"
    using v by (simp add: x_pulse_pulses falling_armed_pulses)
  show "x_pulse pin 0 g = Some g"
    by (rule x_pulse_zero)
qed

theorem x_pulse_repeats_witness:
  "valid_Pin 1
   \<and> (\<exists>g'. x_pulse 1 3 port_reset = Some g'
      \<and> bus g' = [Store Reg_BSRR 1, Store Reg_BSRR 0x10000, Store Reg_BSRR 1,
                  Store Reg_BSRR 0x10000, Store Reg_BSRR 1, Store Reg_BSRR 0x10000]
      \<and> wave g' = [1, 0, 1, 0, 1, 0]
      \<and> ODR g' AND 1 = 0)
   \<and> (\<exists>g'. x_pulse 1 3 (arm port_reset) = Some g' \<and> edges_to False 1 (wave g') = 3)"
proof -
  have v: "valid_Pin 1" by code_simp
  have u: "unat (3 :: u32) = Suc (Suc (Suc 0))" by simp
  have z: "(3 :: u32) \<noteq> 0" by simp
  show ?thesis
    using v z x_pulse_repeats [OF v, of 3 port_reset] unfolding u
    by (simp add: port_reset_def numeral_3_eq_3)
qed

subsection \<open>The bits of other pins\<close>

lemma bit_kept_refl: "bit_kept i g g"
  by (simp add: bit_kept_def)

lemma bit_kept_trans: "bit_kept i g g' \<Longrightarrow> bit_kept i g' g'' \<Longrightarrow> bit_kept i g g''"
  by (simp add: bit_kept_def)

lemma bit_kept_on: "valid_Pin pin \<Longrightarrow> \<not> bit pin i \<Longrightarrow> bit_kept i g (x_on pin g)"
  by (simp add: x_on_eq bit_kept_def bit_simps)

lemma bit_kept_off: "valid_Pin pin \<Longrightarrow> \<not> bit pin i \<Longrightarrow> bit_kept i g (x_off pin g)"
  by (auto simp add: x_off_eq bit_kept_def bit_simps dest: bit_imp_le_length)

lemma bit_kept_pulses: "valid_Pin pin \<Longrightarrow> \<not> bit pin i \<Longrightarrow> bit_kept i g (pulses n pin g)"
proof (induction n arbitrary: g)
  case 0
  show ?case by (simp add: bit_kept_refl)
next
  case (Suc n)
  have "bit_kept i g (x_off pin (x_on pin g))"
    using Suc.prems by (blast intro: bit_kept_trans bit_kept_on bit_kept_off)
  then show ?case
    using Suc.IH [OF Suc.prems] by (auto intro: bit_kept_trans)
qed

text \<open>
  C1: for every pin and every bit position \<open>i\<close> outside the pin's mask, each of the
  pin's functions (\<open>x_on\<close>, \<open>x_off\<close>, \<open>x_set\<close>, \<open>x_get\<close>, \<open>x_pulse\<close>) leaves bit \<open>i\<close>
  of the port's output register and of its input register as it was: the stores go to
  the set/reset register and name the pin's own bit only.
\<close>

theorem other_bits_kept:
  "valid_Pin pin \<Longrightarrow> \<not> bit pin i \<Longrightarrow>
   bit_kept i g (x_on pin g)
   \<and> bit_kept i g (x_off pin g)
   \<and> bit_kept i g (x_set pin arg g)
   \<and> bit_kept i g (snd (x_get pin g))
   \<and> (\<exists>g'. x_pulse pin qty g = Some g' \<and> bit_kept i g g')"
  by (simp add: bit_kept_on bit_kept_off x_set_def x_get_eq x_pulse_pulses bit_kept_pulses)
    (simp add: bit_kept_def)

theorem other_bits_kept_witness:
  "valid_Pin 1 \<and> \<not> bit (1 :: u32) 3
   \<and> bit_kept 3 (port_reset\<lparr>ODR := 8\<rparr>) (x_on 1 (port_reset\<lparr>ODR := 8\<rparr>))
   \<and> ODR (x_on 1 (port_reset\<lparr>ODR := 8\<rparr>)) = 9
   \<and> bit_kept 3 (port_reset\<lparr>ODR := 8\<rparr>) (x_off 1 (port_reset\<lparr>ODR := 8\<rparr>))
   \<and> (\<exists>g'. x_pulse 1 2 (port_reset\<lparr>ODR := 8\<rparr>) = Some g'
         \<and> bit_kept 3 (port_reset\<lparr>ODR := 8\<rparr>) g')"
proof -
  have v: "valid_Pin 1" by code_simp
  have b: "\<not> bit (1 :: u32) 3" by simp
  have o: "ODR (x_on 1 (port_reset\<lparr>ODR := 8\<rparr>)) = 9"
    by (simp add: x_on_def BSRR_store_def port_reset_def)
  show ?thesis
    using v b o other_bits_kept [OF v b, of "port_reset\<lparr>ODR := 8\<rparr>" 0 2] by simp
qed

subsection \<open>Setting by value\<close>

text \<open>
  C4: for every pin and every argument, \<open>x_set\<close> has exactly the effect of \<open>x_on\<close>
  when the argument is nonzero and exactly the effect of \<open>x_off\<close> when it is zero: the
  resulting states are equal, logs included.
\<close>

theorem x_set_on_or_off:
  "(arg \<noteq> 0 \<longrightarrow> x_set pin arg g = x_on pin g) \<and> (arg = 0 \<longrightarrow> x_set pin arg g = x_off pin g)"
  by (simp add: x_set_def)

theorem x_set_on_or_off_witness:
  "(5 :: u32) \<noteq> 0 \<and> x_set 4 5 port_reset = x_on 4 port_reset
   \<and> x_set 4 0 port_reset = x_off 4 port_reset"
  using x_set_on_or_off [of 5 4 port_reset] x_set_on_or_off [of 0 4 port_reset] by simp

subsection \<open>Reading a pin\<close>

text \<open>
  C5: for every pin and every state of the port, \<open>x_get\<close> (of either generator)
  performs one access, a load of the input register, and returns 1 when the loaded
  value has a bit of the pin's mask and 0 otherwise. No register changes, and the
  result does not depend on the output register.
\<close>

theorem x_get_reads_input:
  "x_get pin g = (if IDR g AND pin \<noteq> 0 then 1 else 0, g\<lparr>bus := bus g @ [Load Reg_IDR]\<rparr>)
   \<and> regs (snd (x_get pin g)) = regs g
   \<and> fst (x_get pin (g\<lparr>ODR := odr\<rparr>)) = fst (x_get pin g)
   \<and> x_get_input pin g = (if IDR g AND pin \<noteq> 0 then 1 else 0, g\<lparr>bus := bus g @ [Load Reg_IDR]\<rparr>)
   \<and> regs (snd (x_get_input pin g)) = regs g
   \<and> fst (x_get_input pin (g\<lparr>ODR := odr\<rparr>)) = fst (x_get_input pin g)"
  by (simp add: x_get_eq x_get_input_eq regs_def)

text \<open>
  C10: for every pin, two states of the port whose input registers agree on the pin's
  mask give the same result of \<open>x_get\<close> (of either generator), whatever the other
  bits are.
\<close>

theorem x_get_own_bit_only:
  "IDR g AND pin = IDR g' AND pin \<Longrightarrow>
   fst (x_get pin g) = fst (x_get pin g') \<and> fst (x_get_input pin g) = fst (x_get_input pin g')"
  by (simp add: x_get_eq x_get_input_eq)

theorem x_get_own_bit_only_witness:
  "IDR (port_reset\<lparr>IDR := 0x0005\<rparr>) AND 4 = IDR (port_reset\<lparr>IDR := 0xFFFC, ODR := 3\<rparr>) AND 4
   \<and> fst (x_get 4 (port_reset\<lparr>IDR := 0x0005\<rparr>)) = fst (x_get 4 (port_reset\<lparr>IDR := 0xFFFC, ODR := 3\<rparr>))
   \<and> fst (x_get 4 (port_reset\<lparr>IDR := 0x0005\<rparr>)) = 1"
proof -
  have h: "IDR (port_reset\<lparr>IDR := 0x0005\<rparr>) AND 4 = IDR (port_reset\<lparr>IDR := 0xFFFC, ODR := 3\<rparr>) AND 4"
    by simp
  have r: "fst (x_get 4 (port_reset\<lparr>IDR := 0x0005\<rparr>)) = 1"
    by (simp add: x_get_def IDR_load_def)
  show ?thesis using h r x_get_own_bit_only [OF h] by simp
qed

subsection \<open>Reading back what was written\<close>

text \<open>
  C7: for every pin of a port wired loop-back and every boolean \<open>b\<close>, \<open>x_set\<close> with
  \<open>b\<close> followed by \<open>x_get\<close> returns \<open>b\<close> as 0 or 1; after \<open>x_on\<close>, \<open>x_get\<close> returns 1,
  and after \<open>x_off\<close> it returns 0.
\<close>

theorem loopback_set_get:
  "valid_Pin pin \<Longrightarrow> loopback g \<Longrightarrow>
   fst (x_get pin (x_set pin (of_bool b) g)) = of_bool b
   \<and> fst (x_get pin (x_on pin g)) = 1
   \<and> fst (x_get pin (x_off pin g)) = 0"
  by (simp add: x_set_def x_on_eq x_off_eq x_get_eq or_and_self and_not_and valid_Pin_nonzero)

theorem loopback_set_get_witness:
  "valid_Pin 0x80 \<and> loopback (port_reset\<lparr>loopback := True\<rparr>)
   \<and> fst (x_get 0x80 (x_set 0x80 (of_bool True) (port_reset\<lparr>loopback := True\<rparr>))) = of_bool True
   \<and> fst (x_get 0x80 (x_on 0x80 (port_reset\<lparr>loopback := True\<rparr>))) = 1
   \<and> fst (x_get 0x80 (x_off 0x80 (port_reset\<lparr>loopback := True\<rparr>))) = 0"
proof -
  have v: "valid_Pin 0x80" by code_simp
  have l: "loopback (port_reset\<lparr>loopback := True\<rparr>)" by simp
  show ?thesis using v l loopback_set_get [OF v l, of True] by simp
qed

subsection \<open>Repeating a function\<close>

lemma no_edge_between_equals: "edges_to h pin (ws @ [a, a]) = edges_to h pin (ws @ [a])"
  by (induction h pin ws rule: edges_to.induct) auto

lemma second_on_no_edge:
  "valid_Pin pin \<Longrightarrow> wave (x_on pin (x_on pin g)) = wave g @ [ODR g OR pin, ODR g OR pin]"
  by (simp add: x_on_eq or.assoc)

lemma second_off_no_edge:
  "valid_Pin pin \<Longrightarrow>
   wave (x_off pin (x_off pin g)) = wave g @ [ODR g AND NOT pin, ODR g AND NOT pin]"
  by (simp add: x_off_eq and_not_not)

lemma edges_on_twice:
  "valid_Pin pin \<Longrightarrow>
   edges_to h pin (wave (x_on pin (x_on pin g))) = edges_to h pin (wave (x_on pin g))"
  by (simp add: second_on_no_edge no_edge_between_equals) (simp add: x_on_eq)

lemma edges_off_twice:
  "valid_Pin pin \<Longrightarrow>
   edges_to h pin (wave (x_off pin (x_off pin g))) = edges_to h pin (wave (x_off pin g))"
  by (simp add: second_off_no_edge no_edge_between_equals) (simp add: x_off_eq)

lemma regs_on_twice: "valid_Pin pin \<Longrightarrow> regs (x_on pin (x_on pin g)) = regs (x_on pin g)"
  by (simp add: x_on_eq regs_def or.assoc)

lemma regs_off_twice: "valid_Pin pin \<Longrightarrow> regs (x_off pin (x_off pin g)) = regs (x_off pin g)"
  by (simp add: x_off_eq regs_def and_not_not)

lemma pulse_twice:
  assumes "valid_Pin pin"
  shows "\<exists>g1 g2. x_pulse pin m (arm g) = Some g1 \<and> x_pulse pin n g1 = Some g2
         \<and> edges_to False pin (wave g1) = unat m
         \<and> edges_to False pin (wave g2) = unat m + unat n"
  using falling_armed_pulses [OF assms, of "unat m" g]
    falling_armed_pulses [OF assms, of "unat m + unat n" g]
  by (simp add: x_pulse_pulses pulses_add)

text \<open>
  C8: for every pin, applying \<open>x_on\<close>, \<open>x_off\<close>, \<open>x_set\<close> with a fixed argument or
  \<open>x_get\<close> twice in succession gives the same registers (and for \<open>x_get\<close> the same
  result) as applying it once, and the second application adds no edge of the pin to
  the capture. \<open>x_pulse\<close> is the exception: the edges it produces accumulate, a
  second call with counter \<open>n\<close> adding \<open>n\<close> high-to-low edges to those of the first.
\<close>

theorem idempotent_except_pulse:
  "valid_Pin pin \<Longrightarrow>
   regs (x_on pin (x_on pin g)) = regs (x_on pin g)
   \<and> regs (x_off pin (x_off pin g)) = regs (x_off pin g)
   \<and> regs (x_set pin arg (x_set pin arg g)) = regs (x_set pin arg g)
   \<and> fst (x_get pin (snd (x_get pin g))) = fst (x_get pin g)
   \<and> regs (snd (x_get pin (snd (x_get pin g)))) = regs (snd (x_get pin g))
   \<and> edges_to h pin (wave (x_on pin (x_on pin g))) = edges_to h pin (wave (x_on pin g))
   \<and> edges_to h pin (wave (x_off pin (x_off pin g))) = edges_to h pin (wave (x_off pin g))
   \<and> edges_to h pin (wave (x_set pin arg (x_set pin arg g)))
       = edges_to h pin (wave (x_set pin arg g))
   \<and> (\<exists>g1 g2. x_pulse pin m (arm g) = Some g1 \<and> x_pulse pin n g1 = Some g2
         \<and> edges_to False pin (wave g1) = unat m
         \<and> edges_to False pin (wave g2) = unat m + unat n)"
  using pulse_twice [of pin m g n]
  by (simp add: x_set_def regs_on_twice regs_off_twice edges_on_twice edges_off_twice)
    (simp add: x_get_eq regs_def)

theorem idempotent_except_pulse_witness:
  "valid_Pin 2
   \<and> regs (x_on 2 (x_on 2 port_reset)) = regs (x_on 2 port_reset)
   \<and> regs (x_on 2 port_reset) = (0, 2)
   \<and> fst (x_get 2 (snd (x_get 2 port_reset))) = fst (x_get 2 port_reset)
   \<and> edges_to True 2 (wave (x_on 2 (x_on 2 (arm port_reset)))) = 1
   \<and> edges_to True 2 (wave (x_on 2 (arm port_reset))) = 1
   \<and> (\<exists>g1 g2. x_pulse 2 2 (arm port_reset) = Some g1 \<and> x_pulse 2 2 g1 = Some g2
         \<and> edges_to False 2 (wave g1) = 2
         \<and> edges_to False 2 (wave g2) = 4)"
proof -
  have v: "valid_Pin 2" by code_simp
  have r: "regs (x_on 2 port_reset) = (0, 2)"
    by (simp add: regs_def x_on_def BSRR_store_def port_reset_def)
  have e: "edges_to True 2 (wave (x_on 2 (arm port_reset))) = 1"
    by (simp add: x_on_def BSRR_store_def arm_def port_reset_def)
  show ?thesis
    using v r e idempotent_except_pulse [OF v, of port_reset 1 True 2 2]
      idempotent_except_pulse [OF v, of "arm port_reset" 1 True 2 2]
    by simp
qed

subsection \<open>Termination\<close>

text \<open>
  C9: every function returns for every input. \<open>x_pulse\<close> returns for every value of
  its 32-bit counter, after two accesses to the port per unit of the counter; \<open>x_on\<close>,
  \<open>x_off\<close>, \<open>x_set\<close> and \<open>x_get\<close> are straight-line and perform exactly one access.
\<close>

theorem every_operation_returns:
  "(\<exists>g'. x_pulse pin qty g = Some g' \<and> length (bus g') = length (bus g) + 2 * unat qty)
   \<and> length (bus (x_on pin g)) = length (bus g) + 1
   \<and> length (bus (x_off pin g)) = length (bus g) + 1
   \<and> length (bus (x_set pin arg g)) = length (bus g) + 1
   \<and> length (bus (snd (x_get pin g))) = length (bus g) + 1
   \<and> length (bus (snd (x_get_input pin g))) = length (bus g) + 1"
  by (simp add: x_pulse_pulses bus_pulses length_concat x_on_def x_off_def x_set_def
      bus_BSRR_store x_get_eq x_get_input_eq sum_list_replicate)

end
